theory Spec2Isabelle
  imports Main "HOL-Library.Char_ord" "HOL-Library.List_Lexorder" "HOL-Library.Multiset"
begin

section \<open>Observation tables\<close>

text \<open>
  The analysis scripts work on a pandas table with one row per (date, hospital).
  A table is a list of rows in file order. \<open>total_num\<close> is the column produced by
  \<^verbatim>\<open>pd.to_numeric(df['total_trolleys'], errors='coerce')\<close>: the trolley count as a
  whole number, or \<open>None\<close> where the cell did not parse (pandas stores NaN there).
  Colours are the strings stored in the file.
\<close>

record obs_row =
  date :: string
  hospital :: string
  total_num :: "int option"
  total_color :: string

text \<open>\<^verbatim>\<open>Series.unique()\<close>: the distinct values in order of first appearance.\<close>

fun unique_aux :: "'a list \<Rightarrow> 'a list \<Rightarrow> 'a list" where
  "unique_aux seen [] = []"
| "unique_aux seen (x # xs) =
     (if x \<in> set seen then unique_aux seen xs else x # unique_aux (x # seen) xs)"

definition unique :: "'a list \<Rightarrow> 'a list" where
  "unique xs = unique_aux [] xs"

text \<open>\<^verbatim>\<open>df[df['hospital'] == hospital]\<close> followed by \<^verbatim>\<open>dropna(subset=['total_num'])\<close>.\<close>

definition rows_of :: "string \<Rightarrow> obs_row list \<Rightarrow> obs_row list" where
  "rows_of h df = filter (\<lambda>r. hospital r = h) df"

definition dropna :: "obs_row list \<Rightarrow> obs_row list" where
  "dropna rows = filter (\<lambda>r. total_num r \<noteq> None) rows"

text \<open>\<^verbatim>\<open>hosp_data[hosp_data['total_color'] == c]['total_num']\<close> on a table without NaN counts.\<close>

definition color_vals :: "string \<Rightarrow> obs_row list \<Rightarrow> int list" where
  "color_vals c hosp_data = map (\<lambda>r. the (total_num r)) (filter (\<lambda>r. total_color r = c) hosp_data)"

text \<open>\<^verbatim>\<open>vals.max() if len(vals) > 0 else None\<close> and the same for \<^verbatim>\<open>min\<close>.\<close>

definition series_max :: "int list \<Rightarrow> int option" where
  "series_max vals = (if length vals > 0 then Some (fold max (tl vals) (hd vals)) else None)"

definition series_min :: "int list \<Rightarrow> int option" where
  "series_min vals = (if length vals > 0 then Some (fold min (tl vals) (hd vals)) else None)"

section \<open>Threshold inference (analyze\_boundaries.py)\<close>

record threshold_result =
  res_hospital :: string
  green_max :: "int option"
  green_min :: "int option"
  green_count :: nat
  amber_max :: "int option"
  amber_min :: "int option"
  amber_count :: nat
  red_min :: "int option"
  red_max :: "int option"
  red_count :: nat
  amber_threshold :: "int option"
  red_threshold :: "int option"

text \<open>The two \<^verbatim>\<open>if/elif/else\<close> chains of \<^verbatim>\<open>analyze_hospital_thresholds\<close>, branch by branch.\<close>

definition infer_amber_threshold :: "int option \<Rightarrow> int option \<Rightarrow> int option" where
  "infer_amber_threshold gmax amin =
     (if gmax \<noteq> None \<and> amin \<noteq> None then Some (min (the gmax + 1) (the amin))
      else if amin \<noteq> None then amin
      else None)"

definition infer_red_threshold :: "int option \<Rightarrow> int option \<Rightarrow> int option \<Rightarrow> int option" where
  "infer_red_threshold amax gmax rmin =
     (if amax \<noteq> None \<and> rmin \<noteq> None then Some (min (the amax + 1) (the rmin))
      else if gmax \<noteq> None \<and> rmin \<noteq> None then rmin
      else if rmin \<noteq> None then rmin
      else None)"

text \<open>The body of the loop for one hospital, given its rows with numeric counts.\<close>

definition hospital_result :: "string \<Rightarrow> obs_row list \<Rightarrow> threshold_result" where
  "hospital_result h hosp_data =
     (let green_vals = color_vals ''green'' hosp_data;
          amber_vals = color_vals ''amber'' hosp_data;
          red_vals = color_vals ''red'' hosp_data
      in \<lparr> res_hospital = h,
           green_max = series_max green_vals,
           green_min = series_min green_vals,
           green_count = length green_vals,
           amber_max = series_max amber_vals,
           amber_min = series_min amber_vals,
           amber_count = length amber_vals,
           red_min = series_min red_vals,
           red_max = series_max red_vals,
           red_count = length red_vals,
           amber_threshold = infer_amber_threshold (series_max green_vals) (series_min amber_vals),
           red_threshold = infer_red_threshold (series_max amber_vals) (series_max green_vals)
                             (series_min red_vals) \<rparr>)"

text \<open>
  \<^verbatim>\<open>for hospital in sorted(df['hospital'].unique())\<close>: the national aggregate is skipped,
  and so is a hospital with no numeric count; every other hospital adds one result.
\<close>

definition analyze_one :: "obs_row list \<Rightarrow> string \<Rightarrow> threshold_result list" where
  "analyze_one df h =
     (if h = ''National Total'' then []
      else let hosp_data = dropna (rows_of h df)
           in if length hosp_data = 0 then [] else [hospital_result h hosp_data])"

definition analyze_hospital_thresholds :: "obs_row list \<Rightarrow> threshold_result list" where
  "analyze_hospital_thresholds df = concat (map (analyze_one df) (sort (unique (map hospital df))))"

section \<open>Exact boundaries (analyze\_boundaries.py)\<close>

text \<open>
  \<^verbatim>\<open>hosp_data.sort_values('total_num')\<close> on rows that all have a numeric count: ascending
  by count. Rows with equal counts stay in table order here; the properties below are
  stated on the sorted sequence, whatever order it gives to equal counts.
\<close>

definition sort_values :: "obs_row list \<Rightarrow> obs_row list" where
  "sort_values rows = sort_key (\<lambda>r. the (total_num r)) rows"

text \<open>The pairs (previous row, row) that the scanning loops compare.\<close>

definition adjacent_pairs :: "'a list \<Rightarrow> ('a \<times> 'a) list" where
  "adjacent_pairs xs = zip xs (tl xs)"

record exact_boundary =
  eb_hospital :: string
  boundary_type :: string
  below_threshold :: int
  at_threshold :: int
  proven :: bool

text \<open>The arrow U+2192 of the f-string, as its three UTF-8 bytes.\<close>

definition arrow :: string where
  "arrow = [CHR 0xE2, CHR 0x86, CHR 0x92]"

text \<open>
  The inner loop \<^verbatim>\<open>for _, row in hosp_data.iterrows()\<close> with its variable \<^verbatim>\<open>prev\<close>
  (\<open>None\<close> before the first row).
\<close>

fun exact_scan :: "string \<Rightarrow> obs_row option \<Rightarrow> obs_row list \<Rightarrow> exact_boundary list" where
  "exact_scan h prev [] = []"
| "exact_scan h prev (row # rows) =
     (case prev of
        None \<Rightarrow> []
      | Some p \<Rightarrow>
          (let diff = the (total_num row) - the (total_num p)
           in if diff = 1 \<and> total_color row \<noteq> total_color p
              then [\<lparr> eb_hospital = h,
                      boundary_type = total_color p @ arrow @ total_color row,
                      below_threshold = the (total_num p),
                      at_threshold = the (total_num row),
                      proven = True \<rparr>]
              else []))
     @ exact_scan h (Some row) rows"

definition exact_one :: "obs_row list \<Rightarrow> string \<Rightarrow> exact_boundary list" where
  "exact_one df h =
     (if h = ''National Total'' then []
      else exact_scan h None (sort_values (dropna (rows_of h df))))"

definition find_exact_boundaries :: "obs_row list \<Rightarrow> exact_boundary list" where
  "find_exact_boundaries df = concat (map (exact_one df) (unique (map hospital df)))"

section \<open>Colour transitions found while scraping (scrape\_colors.py)\<close>

record color_boundary =
  cb_hospital :: string
  from_value :: int
  from_color :: string
  to_value :: int
  to_color :: string
  difference :: int
  from_date :: string
  to_date :: string

fun color_scan :: "string \<Rightarrow> obs_row option \<Rightarrow> obs_row list \<Rightarrow> color_boundary list" where
  "color_scan h prev_row [] = []"
| "color_scan h prev_row (row # rows) =
     (case prev_row of
        None \<Rightarrow> []
      | Some p \<Rightarrow>
          (if total_color p \<noteq> total_color row
           then (let diff = the (total_num row) - the (total_num p)
                 in [\<lparr> cb_hospital = h,
                         from_value = the (total_num p),
                         from_color = total_color p,
                         to_value = the (total_num row),
                         to_color = total_color row,
                         difference = diff,
                         from_date = date p,
                         to_date = date row \<rparr>])
           else []))
     @ color_scan h (Some row) rows"

definition color_one :: "obs_row list \<Rightarrow> string \<Rightarrow> color_boundary list" where
  "color_one df h = color_scan h None (sort_values (dropna (rows_of h df)))"

definition find_color_boundaries :: "obs_row list \<Rightarrow> color_boundary list" where
  "find_color_boundaries df = concat (map (color_one df) (unique (map hospital df)))"

section \<open>Appending to a CSV file (scrape\_hse\_data.py)\<close>



section \<open>Strings\<close>

text \<open>
  The string methods the scraper uses, on strings of bytes: \<^verbatim>\<open>s.lower()\<close> (letters A to Z),
  \<^verbatim>\<open>s.startswith(p)\<close>, \<^verbatim>\<open>s.endswith(p)\<close>, \<^verbatim>\<open>sub in s\<close> and \<^verbatim>\<open>s.split()\<close>.
\<close>

definition lower_char :: "char \<Rightarrow> char" where
  "lower_char c =
     (if CHR ''A'' \<le> c \<and> c \<le> CHR ''Z'' then char_of (of_char c + (32::nat)) else c)"

definition lower :: "string \<Rightarrow> string" where
  "lower s = map lower_char s"

fun startswith :: "string \<Rightarrow> string \<Rightarrow> bool" where
  "startswith s [] = True"
| "startswith [] (p # ps) = False"
| "startswith (c # cs) (p # ps) = (c = p \<and> startswith cs ps)"

definition endswith :: "string \<Rightarrow> string \<Rightarrow> bool" where
  "endswith s p = startswith (rev s) (rev p)"

fun contains :: "string \<Rightarrow> string \<Rightarrow> bool" where
  "contains [] sub = (sub = [])"
| "contains (c # cs) sub = (startswith (c # cs) sub \<or> contains cs sub)"

definition isspace :: "char \<Rightarrow> bool" where
  "isspace c = (c \<in> set [CHR 0x20, CHR 0x09, CHR 0x0A, CHR 0x0B, CHR 0x0C, CHR 0x0D,
                          CHR 0x1C, CHR 0x1D, CHR 0x1E, CHR 0x1F])"

text \<open>\<^verbatim>\<open>s.split()\<close>: the maximal runs of non-space characters; \<open>cur\<close> is the current run, reversed.\<close>

fun split_aux :: "string \<Rightarrow> string \<Rightarrow> string list" where
  "split_aux cur [] = (if cur = [] then [] else [rev cur])"
| "split_aux cur (c # cs) =
     (if isspace c then (if cur = [] then [] else [rev cur]) @ split_aux [] cs
      else split_aux (c # cur) cs)"

definition split :: "string \<Rightarrow> string list" where
  "split s = split_aux [] s"

section \<open>Table cells and the colour classifier (scrape\_colors.py)\<close>

text \<open>
  A \<^verbatim>\<open>td\<close> or \<^verbatim>\<open>th\<close> element as the scrapers read it: \<open>cell_text\<close> is
  \<^verbatim>\<open>cell.get_text(strip=True)\<close>, \<open>colspan\<close> is \<^verbatim>\<open>int(cell.get('colspan', 1))\<close>,
  \<open>cell_class\<close> is \<^verbatim>\<open>cell.get('class', [])\<close> (a list of class names, or one string), and
  \<open>width\<close> is \<^verbatim>\<open>cell.get('width')\<close>.
\<close>

datatype class_attr = ClassList "string list" | ClassStr string

record cell =
  cell_text :: string
  colspan :: int
  cell_class :: class_attr
  width :: "string option"

text \<open>\<^verbatim>\<open>if isinstance(classes, str): classes = classes.split()\<close>\<close>

fun classes_of :: "class_attr \<Rightarrow> string list" where
  "classes_of (ClassList cs) = cs"
| "classes_of (ClassStr s) = split s"

text \<open>\<^verbatim>\<open>kw in cls.lower()\<close>\<close>

definition in_lower :: "string \<Rightarrow> string \<Rightarrow> bool" where
  "in_lower kw cls = contains (lower cls) kw"

text \<open>
  The body of \<^verbatim>\<open>for cls in classes\<close>: the colour returned at this class, or \<open>None\<close> when
  no branch of the \<^verbatim>\<open>if/elif\<close> chain fires and the loop goes on to the next class.
\<close>

definition class_color :: "string \<Rightarrow> string option" where
  "class_color cls =
     (if in_lower ''green'' cls then Some ''green''
      else if in_lower ''red'' cls then Some ''red''
      else if in_lower ''orange'' cls \<or> in_lower ''amber'' cls \<or> in_lower ''yellow'' cls
           then Some ''amber''
      else None)"

fun color_loop :: "string list \<Rightarrow> string" where
  "color_loop [] = ''none''"
| "color_loop (cls # classes) =
     (case class_color cls of Some c \<Rightarrow> c | None \<Rightarrow> color_loop classes)"

definition extract_color :: "cell \<Rightarrow> string" where
  "extract_color c = color_loop (classes_of (cell_class c))"

text \<open>A class name that contains none of the five colour words.\<close>

definition no_keyword :: "string \<Rightarrow> bool" where
  "no_keyword cls =
     (\<not> in_lower ''green'' cls \<and> \<not> in_lower ''red'' cls \<and> \<not> in_lower ''orange'' cls \<and>
      \<not> in_lower ''amber'' cls \<and> \<not> in_lower ''yellow'' cls)"

section \<open>Survey scraper, one entity per table row (scrape\_with\_colors)\<close>

record data_cell =
  dc_value :: string
  dc_color :: string
  dc_width :: "string option"

text \<open>The dictionary \<^verbatim>\<open>record\<close>; a key that may be absent is an optional field.\<close>

record color_record =
  cr_date :: string
  cr_hospital :: string
  cr_ed_trolleys :: "string option"
  cr_ward_trolleys :: "string option"
  cr_total_trolleys :: "string option"
  cr_total_color :: string
  cr_surge :: "string option"
  cr_surge_color :: "string option"
  cr_delayed :: "string option"
  cr_delayed_color :: "string option"

text \<open>The cells after the first that are kept as data cells.\<close>

definition data_cells_of :: "cell list \<Rightarrow> data_cell list" where
  "data_cells_of cells =
     map (\<lambda>c. \<lparr> dc_value = cell_text c, dc_color = extract_color c, dc_width = width c \<rparr>)
       (filter (\<lambda>c. colspan c = 1 \<and> width c \<in> set [Some ''10'', Some ''50'', Some ''30''])
          (tl cells))"

text \<open>\<^verbatim>\<open>values = [c for c in data_cells if c['value'] and c['value'] != '']\<close>\<close>

definition nonempty_values :: "data_cell list \<Rightarrow> data_cell list" where
  "nonempty_values data_cells = filter (\<lambda>c. dc_value c \<noteq> [] \<and> dc_value c \<noteq> '''') data_cells"

definition make_color_record :: "string \<Rightarrow> string \<Rightarrow> data_cell list \<Rightarrow> color_record" where
  "make_color_record date_str hospital_name vals =
     \<lparr> cr_date = date_str,
       cr_hospital = hospital_name,
       cr_ed_trolleys = (if length vals > 0 then Some (dc_value (vals ! 0)) else None),
       cr_ward_trolleys = (if length vals > 1 then Some (dc_value (vals ! 1)) else None),
       cr_total_trolleys = (if length vals > 2 then Some (dc_value (vals ! 2)) else None),
       cr_total_color = (if length vals > 2 then dc_color (vals ! 2) else ''none''),
       cr_surge = (if length vals > 3 then Some (dc_value (vals ! 3)) else None),
       cr_surge_color = (if length vals > 3 then Some (dc_color (vals ! 3)) else None),
       cr_delayed = (if length vals > 4 then Some (dc_value (vals ! 4)) else None),
       cr_delayed_color = (if length vals > 4 then Some (dc_color (vals ! 4)) else None) \<rparr>"

text \<open>The body of \<^verbatim>\<open>for row in rows\<close>: the records one table row adds to \<^verbatim>\<open>data\<close>.\<close>

definition row_records :: "string \<Rightarrow> cell list \<Rightarrow> color_record list" where
  "row_records date_str cells =
     (if length cells < 5 then []
      else if colspan (hd cells) \<ge> 8 then
        (let hospital_name = cell_text (hd cells) in
         if startswith hospital_name ''HSE '' \<and> \<not> contains hospital_name ''Total'' then []
         else if hospital_name = [] then []
         else if length (data_cells_of cells) \<ge> 3 then
           (if length (nonempty_values (data_cells_of cells)) \<ge> 3
            then [make_color_record date_str hospital_name (nonempty_values (data_cells_of cells))]
            else [])
         else [])
      else [])"

text \<open>
  The table is the list of its rows, each a list of cells; \<open>None\<close> when the page has no
  table. The function returns \<open>None\<close> for a missing table and for an empty result.
\<close>

definition scrape_with_colors :: "string \<Rightarrow> cell list list option \<Rightarrow> color_record list option" where
  "scrape_with_colors date_str table =
     (case table of
        None \<Rightarrow> None
      | Some rows \<Rightarrow>
          (let data = concat (map (row_records date_str) rows)
           in if data = [] then None else Some data))"

section \<open>Survey scraper, scanning all cells (scrape\_with\_colors\_v2)\<close>

record stat =
  st_value :: string
  st_color :: string

record survey_record =
  sv_date :: string
  sv_hospital :: string
  sv_ed_trolleys :: "string option"
  sv_ward_trolleys :: "string option"
  sv_total_trolleys :: "string option"
  sv_total_color :: string
  sv_surge :: "string option"
  sv_delayed :: "string option"
  sv_delayed_color :: string
  sv_gt_24hrs :: "string option"
  sv_gt_75_24hrs :: "string option"

definition is_regional_header_v2 :: "string \<Rightarrow> bool" where
  "is_regional_header_v2 txt =
     (startswith txt ''HSE '' \<and> \<not> contains txt ''Total'' \<and> \<not> endswith txt ''Hospital'')"

text \<open>
  The scanning loops keep an index \<open>i\<close> into the cell list and only ever read the cells
  from \<open>i\<close> on; the model passes that remainder. This is
  \<^verbatim>\<open>if i < len(cells) and cells[i].get_text(strip=True) == '': i += 1\<close>.
\<close>

definition skip_separator :: "cell list \<Rightarrow> cell list" where
  "skip_separator cells =
     (case cells of [] \<Rightarrow> [] | c # rest \<Rightarrow> if cell_text c = [] then rest else cells)"

text \<open>\<^verbatim>\<open>x if x else None\<close> on a string.\<close>

definition or_none :: "string \<Rightarrow> string option" where
  "or_none v = (if v \<noteq> [] then Some v else None)"

definition collect_stats :: "cell list \<Rightarrow> stat list" where
  "collect_stats cells =
     map (\<lambda>c. \<lparr> st_value = cell_text c, st_color = extract_color c \<rparr>) (take 12 cells)"

definition make_survey_record :: "string \<Rightarrow> string \<Rightarrow> stat list \<Rightarrow> survey_record" where
  "make_survey_record date_str hospital_name stats =
     \<lparr> sv_date = date_str,
       sv_hospital = hospital_name,
       sv_ed_trolleys = or_none (st_value (stats ! 0)),
       sv_ward_trolleys = or_none (st_value (stats ! 1)),
       sv_total_trolleys = or_none (st_value (stats ! 2)),
       sv_total_color = st_color (stats ! 2),
       sv_surge = or_none (st_value (stats ! 4)),
       sv_delayed = or_none (st_value (stats ! 6)),
       sv_delayed_color = st_color (stats ! 6),
       sv_gt_24hrs = or_none (st_value (stats ! 8)),
       sv_gt_75_24hrs = or_none (st_value (stats ! 10)) \<rparr>"

text \<open>The records an entity adds: one if at least 11 cells were collected.\<close>

definition entity_records :: "string \<Rightarrow> string \<Rightarrow> cell list \<Rightarrow> survey_record list" where
  "entity_records date_str hospital_name cells =
     (if length (collect_stats cells) \<ge> 11
      then [make_survey_record date_str hospital_name (collect_stats cells)]
      else [])"

lemma length_skip_separator [termination_simp]: "length (skip_separator cells) \<le> length cells"
  by (simp add: skip_separator_def split: list.splits)

function scan_cells :: "string \<Rightarrow> cell list \<Rightarrow> survey_record list" where
  "scan_cells date_str [] = []"
| "scan_cells date_str (c # cells) =
     (if colspan c \<ge> 8 \<and> cell_text c \<noteq> [] then
        (if is_regional_header_v2 (cell_text c) then scan_cells date_str cells
         else entity_records date_str (cell_text c) (skip_separator cells)
              @ scan_cells date_str (drop 12 (skip_separator cells)))
      else scan_cells date_str cells)"
  by pat_completeness auto
termination
  by (relation "measure (\<lambda>(d, cells). length cells)")
    (auto intro: le_imp_less_Suc le_trans [OF diff_le_self length_skip_separator])

definition scrape_with_colors_v2 :: "string \<Rightarrow> cell list option \<Rightarrow> survey_record list option" where
  "scrape_with_colors_v2 date_str table =
     (case table of
        None \<Rightarrow> None
      | Some all_cells \<Rightarrow>
          (let data = scan_cells date_str all_cells
           in if data = [] then None else Some data))"

section \<open>Daily scraper, the master row (scrape\_hse\_data.py)\<close>

text \<open>One entry of \<^verbatim>\<open>data\<close>, by the column names the DataFrame gives it.\<close>

record trolley_entry =
  Hospital :: string
  ED_Trolleys :: "string option"
  Ward_Trolleys :: "string option"
  Total_Trolleys :: "string option"
  Surge_Capacity_in_Use :: "string option"
  Delayed_Transfers_of_Care :: "string option"
  Total_Waiting_gt_24hrs :: "string option"
  Age_75plus_Waiting_gt_24hrs :: "string option"

text \<open>A row of the returned DataFrame: the entry and the two metadata columns.\<close>

record trolley_record = trolley_entry +
  scrape_date :: string
  report_date :: string

definition is_regional_header :: "string \<Rightarrow> bool" where
  "is_regional_header hospital_name =
     (startswith hospital_name ''HSE '' \<and> \<not> endswith hospital_name ''Total'' \<and>
      \<not> endswith hospital_name ''Hospital'')"

text \<open>\<^verbatim>\<open>hospital_count = sum(1 for c in cells if int(c.get('colspan', 1)) >= 8)\<close>\<close>

definition hospital_count :: "cell list \<Rightarrow> nat" where
  "hospital_count cells = length (filter (\<lambda>c. colspan c \<ge> 8) cells)"

text \<open>The loop \<^verbatim>\<open>for row in rows[2:]\<close> with its \<^verbatim>\<open>break\<close>; \<open>None\<close> is \<^verbatim>\<open>data_row = None\<close>.\<close>

fun find_data_row :: "cell list list \<Rightarrow> cell list option" where
  "find_data_row [] = None"
| "find_data_row (row # rows) =
     (if hospital_count row \<ge> 50 then Some row else find_data_row rows)"

text \<open>Up to 11 cells, each \<^verbatim>\<open>val if val else None\<close>.\<close>

definition collect_values :: "cell list \<Rightarrow> string option list" where
  "collect_values cells = map (\<lambda>c. or_none (cell_text c)) (take 11 cells)"

definition entity_entries :: "string \<Rightarrow> cell list \<Rightarrow> trolley_entry list" where
  "entity_entries hospital_name cells =
     (let stats = collect_values cells
      in if hospital_name \<noteq> [] \<and> length stats \<ge> 11 \<and> hospital_name \<noteq> ''''
         then [\<lparr> Hospital = hospital_name,
                 ED_Trolleys = stats ! 0,
                 Ward_Trolleys = stats ! 1,
                 Total_Trolleys = stats ! 2,
                 Surge_Capacity_in_Use = stats ! 4,
                 Delayed_Transfers_of_Care = stats ! 6,
                 Total_Waiting_gt_24hrs = stats ! 8,
                 Age_75plus_Waiting_gt_24hrs = stats ! 10 \<rparr>]
         else [])"

function parse_cells :: "cell list \<Rightarrow> trolley_entry list" where
  "parse_cells [] = []"
| "parse_cells (c # cells) =
     (if colspan c \<ge> 8 then
        (if is_regional_header (cell_text c) then parse_cells (skip_separator cells)
         else entity_entries (cell_text c) (skip_separator cells)
              @ parse_cells (drop 11 (skip_separator cells)))
      else parse_cells cells)"
  by pat_completeness auto
termination
  by (relation "measure length")
    (auto intro: le_imp_less_Suc le_trans [OF diff_le_self length_skip_separator]
       simp: length_skip_separator le_imp_less_Suc)

datatype scrape_error = NoTableFound | NoMasterRowFound

text \<open>\<^verbatim>\<open>df['scrape_date'] = now\<close> and \<^verbatim>\<open>df['report_date'] = date_str\<close>, for one row.\<close>

definition with_metadata :: "string \<Rightarrow> string \<Rightarrow> trolley_entry \<Rightarrow> trolley_record" where
  "with_metadata now date_str e = trolley_entry.extend e (trolley_record.fields now date_str)"

text \<open>
  \<^verbatim>\<open>scrape_hse_trolleygar(date_str)\<close> on a fetched page: \<open>table\<close> is the list of rows of the
  first table (\<open>None\<close> when the page has none) and \<open>now\<close> is the time stamp of the call.
  The two \<^verbatim>\<open>return None\<close> paths are told apart by the message they print.
\<close>

definition scrape_hse_trolleygar ::
    "string \<Rightarrow> string \<Rightarrow> cell list list option \<Rightarrow> scrape_error + trolley_record list" where
  "scrape_hse_trolleygar date_str now table =
     (case table of
        None \<Rightarrow> Inl NoTableFound
      | Some rows \<Rightarrow>
          (case find_data_row (drop 2 rows) of
             None \<Rightarrow> Inl NoMasterRowFound
           | Some data_row \<Rightarrow>
               Inr (map (with_metadata now date_str) (parse_cells data_row))))"

section \<open>Example tables\<close>

text \<open>A hospital observed amber at 15 and 20 and red at 30, never green.\<close>

definition amber_red_table :: "obs_row list" where
  "amber_red_table =
     [\<lparr>date = ''01/01/2026'', hospital = ''X'', total_num = Some 15, total_color = ''amber''\<rparr>,
      \<lparr>date = ''02/01/2026'', hospital = ''X'', total_num = Some 20, total_color = ''amber''\<rparr>,
      \<lparr>date = ''03/01/2026'', hospital = ''X'', total_num = Some 30, total_color = ''red''\<rparr>]"


text \<open>A hospital observed amber at 10 and, on another day, red at 3.\<close>

definition low_red_table :: "obs_row list" where
  "low_red_table =
     [\<lparr>date = ''01/01/2026'', hospital = ''X'', total_num = Some 10, total_color = ''amber''\<rparr>,
      \<lparr>date = ''02/01/2026'', hospital = ''X'', total_num = Some 3, total_color = ''red''\<rparr>]"

text \<open>Hospital X observed green at 10 and amber at 11.\<close>

definition unit_step_table :: "obs_row list" where
  "unit_step_table =
     [\<lparr>date = ''01/01/2026'', hospital = ''X'', total_num = Some 10, total_color = ''green''\<rparr>,
      \<lparr>date = ''02/01/2026'', hospital = ''X'', total_num = Some 11, total_color = ''amber''\<rparr>]"

text \<open>
  Hospital X observed red at 15, then green at 10 and amber at 10: sorted by count, the
  colour changes at a difference of 0 and at a difference of 5.
\<close>

definition wide_step_table :: "obs_row list" where
  "wide_step_table =
     [\<lparr>date = ''01/01/2026'', hospital = ''X'', total_num = Some 15, total_color = ''red''\<rparr>,
      \<lparr>date = ''02/01/2026'', hospital = ''X'', total_num = Some 10, total_color = ''green''\<rparr>,
      \<lparr>date = ''03/01/2026'', hospital = ''X'', total_num = Some 10, total_color = ''amber''\<rparr>]"

section \<open>Example cells, rows and tables\<close>

definition name_cell :: "string \<Rightarrow> cell" where
  "name_cell nm = \<lparr> cell_text = nm, colspan = 9, cell_class = ClassList [], width = None \<rparr>"

definition value_cell :: "string \<Rightarrow> cell" where
  "value_cell v = \<lparr> cell_text = v, colspan = 1, cell_class = ClassList [], width = Some ''50'' \<rparr>"

text \<open>An entity as the master row lists it: the name, an empty separator, 11 statistics cells.\<close>

definition entity_cells :: "string \<Rightarrow> cell list" where
  "entity_cells nm =
     [name_cell nm, value_cell '''',
      value_cell ''3'', value_cell ''4'', value_cell ''7'', value_cell '''', value_cell ''1'',
      value_cell '''', value_cell ''2'', value_cell '''', value_cell ''5'', value_cell '''',
      value_cell ''0'']"

definition header_row :: "cell list" where
  "header_row = [name_cell ''Hospital'', value_cell ''ED'', value_cell ''Ward'', value_cell ''Total'']"

definition master_row :: "cell list" where
  "master_row = concat (replicate 62 (entity_cells ''Mercy Hospital''))"

definition noise_row :: "cell list" where
  "noise_row = concat (replicate 3 (entity_cells ''Mercy Hospital''))"

text \<open>One header row, the wide row, two short rows; and the same with two header rows.\<close>

definition one_header_table :: "cell list list" where
  "one_header_table = [header_row, master_row, noise_row, noise_row]"

definition two_header_table :: "cell list list" where
  "two_header_table = [header_row, header_row, master_row, noise_row, noise_row]"

text \<open>A name cell that starts with the region prefix and has "Total" inside, then 12 cells.\<close>

definition total_inside_cells :: "cell list" where
  "total_inside_cells = name_cell ''HSE Total Care Unit'' # replicate 12 (value_cell ''6'')"

text \<open>A hospital name followed by 13 empty cells.\<close>

definition empty_stats_cells :: "cell list" where
  "empty_stats_cells = name_cell ''Mercy Hospital'' # replicate 13 (value_cell '''')"

text \<open>A table row of the survey page with a name and only two values.\<close>

definition two_value_row :: "cell list" where
  "two_value_row =
     [name_cell ''Mercy Hospital'', value_cell ''3'', value_cell '''', value_cell ''4'',
      value_cell '''']"

section \<open>Facts about the table operations\<close>

lemma unique_aux_set: "set (unique_aux seen xs) = set xs - set seen"
  by (induction seen xs rule: unique_aux.induct) auto

lemma unique_aux_distinct: "distinct (unique_aux seen xs)"
  by (induction seen xs rule: unique_aux.induct) (auto simp: unique_aux_set)

lemma set_unique: "set (unique xs) = set xs"
  by (simp add: unique_def unique_aux_set)

lemma distinct_unique: "distinct (unique xs)"
  by (simp add: unique_def unique_aux_distinct)

lemma series_max_Max: "vals \<noteq> [] \<Longrightarrow> series_max vals = Some (Max (set vals))"
proof (cases vals)
  case (Cons a l)
  have "Max (set (a # l)) = fold max l a" by (rule Max.set_eq_fold)
  then show ?thesis using Cons by (simp add: series_max_def)
qed simp

lemma series_min_Min: "vals \<noteq> [] \<Longrightarrow> series_min vals = Some (Min (set vals))"
proof (cases vals)
  case (Cons a l)
  have "Min (set (a # l)) = fold min l a" by (rule Min.set_eq_fold)
  then show ?thesis using Cons by (simp add: series_min_def)
qed simp

lemma series_max_None: "series_max vals = None \<longleftrightarrow> vals = []"
  by (simp add: series_max_def)

lemma series_min_None: "series_min vals = None \<longleftrightarrow> vals = []"
  by (simp add: series_min_def)

text \<open>The counts of one colour, read off the table itself.\<close>

lemma set_color_vals:
  "set (color_vals c (dropna (rows_of h df))) =
     {n. \<exists>r \<in> set df. hospital r = h \<and> total_color r = c \<and> total_num r = Some n}"
  by (force simp: color_vals_def dropna_def rows_of_def)

lemma color_vals_pairs:
  "color_vals c rows =
     map fst (filter (\<lambda>p. snd p = c) (map (\<lambda>r. (the (total_num r), total_color r)) rows))"
  by (induction rows) (simp_all add: color_vals_def)

section \<open>Threshold inference\<close>

text \<open>The output holds exactly one result for every hospital with a numeric count.\<close>

lemma analyze_mem:
  "r \<in> set (analyze_hospital_thresholds df) \<longleftrightarrow>
     (\<exists>h \<in> set (map hospital df). h \<noteq> ''National Total'' \<and> dropna (rows_of h df) \<noteq> [] \<and>
        r = hospital_result h (dropna (rows_of h df)))"
  by (auto simp: analyze_hospital_thresholds_def analyze_one_def set_unique Let_def)

lemma res_hospital_result [simp]: "res_hospital (hospital_result h rows) = h"
  by (simp add: hospital_result_def Let_def)

lemma rows_of_nonempty_hospital: "rows_of h df \<noteq> [] \<Longrightarrow> h \<in> set (map hospital df)"
  by (induction df) (auto simp: rows_of_def split: if_splits)

lemma infer_amber_threshold_le: "infer_amber_threshold gmax (Some m) = Some a \<Longrightarrow> a \<le> m"
  by (auto simp: infer_amber_threshold_def split: if_splits)

text \<open>
  C1 (as the code has it). For a hospital whose only numeric observations are
  (15, amber), (20, amber), (30, red), the inference reports amberThreshold = 15, the
  lowest amber count (the \<^verbatim>\<open>elif\<close> branch taken when no green was seen), and
  redThreshold = 21 = min (20 + 1) 30, one past the highest amber count.
\<close>

theorem amber_red_only_thresholds:
  assumes "h \<noteq> ''National Total''"
    and "map (\<lambda>r. (the (total_num r), total_color r)) (dropna (rows_of h df)) =
           [(15, ''amber''), (20, ''amber''), (30, ''red'')]"
  shows "\<exists>r \<in> set (analyze_hospital_thresholds df).
           res_hospital r = h \<and> amber_threshold r = Some 15 \<and> red_threshold r = Some 21"
proof -
  let ?D = "dropna (rows_of h df)"
  from assms(2) have ne: "?D \<noteq> []" by auto
  then have "rows_of h df \<noteq> []" by (auto simp: dropna_def)
  then have hin: "h \<in> set (map hospital df)" by (rule rows_of_nonempty_hospital)
  have mem: "hospital_result h ?D \<in> set (analyze_hospital_thresholds df)"
    unfolding analyze_mem using hin ne assms(1) by blast
  have g: "color_vals ''green'' ?D = []" and a: "color_vals ''amber'' ?D = [15, 20]"
    and r: "color_vals ''red'' ?D = [30]"
    by (simp_all add: color_vals_pairs assms(2))
  have "amber_threshold (hospital_result h ?D) = Some 15"
    by (simp add: hospital_result_def Let_def g a infer_amber_threshold_def
        series_max_def series_min_def)
  moreover have "red_threshold (hospital_result h ?D) = Some 21"
    by (simp add: hospital_result_def Let_def g a r infer_red_threshold_def
        series_max_def series_min_def)
  ultimately show ?thesis using mem by force
qed

theorem amber_red_only_thresholds_witness:
  "\<exists>r \<in> set (analyze_hospital_thresholds amber_red_table).
      res_hospital r = ''X'' \<and> amber_threshold r = Some 15 \<and> red_threshold r = Some 21"
proof -
  have "''X'' \<noteq> ''National Total''" by simp
  moreover have "map (\<lambda>r. (the (total_num r), total_color r)) (dropna (rows_of ''X'' amber_red_table)) =
           [(15, ''amber''), (20, ''amber''), (30, ''red'')]"
    by (simp add: amber_red_table_def dropna_def rows_of_def)
  ultimately show ?thesis by (rule amber_red_only_thresholds)
qed

text \<open>
  The table of the scenario, evaluated: the result is not (null, 30).
\<close>

theorem amber_red_only_counterexample:
  "map (\<lambda>r. (amber_threshold r, red_threshold r)) (analyze_hospital_thresholds amber_red_table)
     \<noteq> [(None, Some 30)]"
  by (simp add: amber_red_table_def analyze_hospital_thresholds_def analyze_one_def unique_def
      rows_of_def dropna_def hospital_result_def color_vals_def series_max_def series_min_def
      infer_amber_threshold_def infer_red_threshold_def Let_def)



text \<open>
  C7 (as the code has it). When both thresholds of a hospital are non-null,
  amberThreshold \<le> redThreshold holds exactly when amberThreshold is at most the lowest
  red-coloured count of that hospital: the amber threshold never exceeds the lowest amber
  count, which is below (highest amber count + 1), so only a red count observed below the
  amber threshold can break the order.
\<close>

theorem thresholds_ordered_iff:
  assumes "r \<in> set (analyze_hospital_thresholds df)"
    and "amber_threshold r = Some a"
    and "red_threshold r = Some t"
  shows "a \<le> t \<longleftrightarrow>
     a \<le> Min {n. \<exists>x \<in> set df. hospital x = res_hospital r \<and> total_color x = ''red'' \<and> total_num x = Some n}"
proof -
  from assms(1) obtain h where r: "r = hospital_result h (dropna (rows_of h df))"
    by (auto simp: analyze_mem)
  then have h: "res_hospital r = h" by simp
  let ?G = "color_vals ''green'' (dropna (rows_of h df))"
  let ?A = "color_vals ''amber'' (dropna (rows_of h df))"
  let ?R = "color_vals ''red'' (dropna (rows_of h df))"
  have at: "infer_amber_threshold (series_max ?G) (series_min ?A) = Some a"
    using assms(2) by (simp add: r hospital_result_def Let_def)
  have rt: "infer_red_threshold (series_max ?A) (series_max ?G) (series_min ?R) = Some t"
    using assms(3) by (simp add: r hospital_result_def Let_def)
  have a: "?A \<noteq> []"
    using at by (auto simp: infer_amber_threshold_def series_min_None split: if_splits)
  have rd: "?R \<noteq> []"
    using rt by (auto simp: infer_red_threshold_def series_min_None split: if_splits)
  have a_le: "a \<le> Min (set ?A)"
    using at [unfolded series_min_Min [OF a]] by (rule infer_amber_threshold_le)
  have "Min (set ?A) \<le> Max (set ?A)"
    using a by (simp add: Min_le_iff)
  with a_le have lt: "a < Max (set ?A) + 1" by simp
  have t: "t = min (Max (set ?A) + 1) (Min (set ?R))"
    using rt a rd by (simp add: infer_red_threshold_def series_max_Max series_min_Min)
  have "a \<le> t \<longleftrightarrow> a \<le> Min (set ?R)"
    unfolding t using lt by simp
  then show ?thesis by (simp only: set_color_vals h)
qed

theorem thresholds_ordered_iff_witness:
  "\<not> (10::int) \<le> 3 \<and>
   \<not> 10 \<le> Min {n. \<exists>x \<in> set low_red_table. hospital x = ''X'' \<and> total_color x = ''red'' \<and> total_num x = Some n}"
proof -
  let ?r = "hospital_result ''X'' (dropna (rows_of ''X'' low_red_table))"
  have 1: "?r \<in> set (analyze_hospital_thresholds low_red_table)"
    by (simp add: low_red_table_def analyze_hospital_thresholds_def analyze_one_def
        unique_def rows_of_def dropna_def Let_def)
  have 2: "amber_threshold ?r = Some 10"
    by (simp add: low_red_table_def rows_of_def dropna_def hospital_result_def color_vals_def
        series_max_def series_min_def infer_amber_threshold_def Let_def)
  have 3: "red_threshold ?r = Some 3"
    by (simp add: low_red_table_def rows_of_def dropna_def hospital_result_def color_vals_def
        series_max_def series_min_def infer_red_threshold_def Let_def)
  from thresholds_ordered_iff [OF 1 2 3] show ?thesis by simp
qed

text \<open>
  A hospital seen amber at 10 and red at 3 gets amberThreshold = 10 and redThreshold = 3:
  both non-null, and not in order.
\<close>

theorem thresholds_ordered_counterexample:
  "\<not> (\<forall>r \<in> set (analyze_hospital_thresholds low_red_table). \<forall>a t.
        amber_threshold r = Some a \<longrightarrow> red_threshold r = Some t \<longrightarrow> a \<le> t)"
  by (simp add: low_red_table_def analyze_hospital_thresholds_def analyze_one_def unique_def
      rows_of_def dropna_def hospital_result_def color_vals_def series_max_def series_min_def
      infer_amber_threshold_def infer_red_threshold_def Let_def)

section \<open>Boundary scans\<close>

lemma filter_concat_map_key:
  assumes "distinct hs" and "\<And>h' b. b \<in> set (f h') \<Longrightarrow> k b = h'"
  shows "filter (\<lambda>b. k b = h) (concat (map f hs)) = (if h \<in> set hs then f h else [])"
  using assms(1)
proof (induction hs)
  case Nil
  then show ?case by simp
next
  case (Cons a hs)
  have same: "\<And>x. filter (\<lambda>b. k b = x) (f x) = f x"
    using assms(2) by (simp add: filter_id_conv)
  have other: "\<And>x y. x \<noteq> y \<Longrightarrow> filter (\<lambda>b. k b = y) (f x) = []"
    using assms(2) by (auto simp: filter_empty_conv)
  show ?case
  proof (cases "a = h")
    case True
    with Cons show ?thesis by (simp add: same)
  next
    case False
    with Cons show ?thesis by (simp add: other)
  qed
qed

lemma exact_scan_hospital: "b \<in> set (exact_scan h prev rows) \<Longrightarrow> eb_hospital b = h"
  by (induction h prev rows rule: exact_scan.induct) (auto simp: Let_def split: option.splits if_splits)

lemma exact_scan_Some:
  "exact_scan h (Some p) rows =
     map (\<lambda>(p, q). \<lparr> eb_hospital = h, boundary_type = total_color p @ arrow @ total_color q,
                      below_threshold = the (total_num p), at_threshold = the (total_num q),
                      proven = True \<rparr>)
       (filter (\<lambda>(p, q). the (total_num q) - the (total_num p) = 1 \<and> total_color q \<noteq> total_color p)
          (zip (p # rows) rows))"
  by (induction rows arbitrary: p) (simp_all add: Let_def)

lemma exact_scan_None:
  "exact_scan h None rows =
     map (\<lambda>(p, q). \<lparr> eb_hospital = h, boundary_type = total_color p @ arrow @ total_color q,
                      below_threshold = the (total_num p), at_threshold = the (total_num q),
                      proven = True \<rparr>)
       (filter (\<lambda>(p, q). the (total_num q) - the (total_num p) = 1 \<and> total_color q \<noteq> total_color p)
          (adjacent_pairs rows))"
  by (cases rows) (simp_all add: exact_scan_Some adjacent_pairs_def)

lemma rows_of_absent: "h \<notin> set (map hospital df) \<Longrightarrow> rows_of h df = []"
  by (auto simp: rows_of_def filter_empty_conv)

lemma sort_values_sorted: "sorted (map (\<lambda>r. the (total_num r)) (sort_values rows))"
  by (simp add: sort_values_def)

lemma sort_values_mset: "mset (sort_values rows) = mset rows"
  by (simp add: sort_values_def)

lemma exact_filter:
  "h \<noteq> ''National Total'' \<Longrightarrow> filter (\<lambda>b. eb_hospital b = h) (find_exact_boundaries df) =
     exact_scan h None (sort_values (dropna (rows_of h df)))"
proof -
  assume nt: "h \<noteq> ''National Total''"
  have key: "\<And>h' b. b \<in> set (exact_one df h') \<Longrightarrow> eb_hospital b = h'"
    by (auto simp: exact_one_def dest: exact_scan_hospital split: if_splits)
  have "filter (\<lambda>b. eb_hospital b = h) (find_exact_boundaries df) =
      (if h \<in> set (unique (map hospital df)) then exact_one df h else [])"
    unfolding find_exact_boundaries_def
    by (rule filter_concat_map_key [OF distinct_unique key])
  also have "\<dots> = exact_one df h"
    by (simp add: set_unique exact_one_def rows_of_absent dropna_def sort_values_def del: set_map)
  finally show ?thesis using nt by (simp add: exact_one_def)
qed

lemma color_scan_hospital: "b \<in> set (color_scan h prev rows) \<Longrightarrow> cb_hospital b = h"
  by (induction h prev rows rule: color_scan.induct) (auto simp: Let_def split: option.splits if_splits)

lemma color_scan_Some:
  "color_scan h (Some p) rows =
     map (\<lambda>(p, q). \<lparr> cb_hospital = h, from_value = the (total_num p), from_color = total_color p,
                      to_value = the (total_num q), to_color = total_color q,
                      difference = the (total_num q) - the (total_num p),
                      from_date = date p, to_date = date q \<rparr>)
       (filter (\<lambda>(p, q). total_color p \<noteq> total_color q) (zip (p # rows) rows))"
  by (induction rows arbitrary: p) (simp_all add: Let_def)

lemma color_scan_None:
  "color_scan h None rows =
     map (\<lambda>(p, q). \<lparr> cb_hospital = h, from_value = the (total_num p), from_color = total_color p,
                      to_value = the (total_num q), to_color = total_color q,
                      difference = the (total_num q) - the (total_num p),
                      from_date = date p, to_date = date q \<rparr>)
       (filter (\<lambda>(p, q). total_color p \<noteq> total_color q) (adjacent_pairs rows))"
  by (cases rows) (simp_all add: color_scan_Some adjacent_pairs_def)

lemma color_filter:
  "filter (\<lambda>b. cb_hospital b = h) (find_color_boundaries df) =
     color_scan h None (sort_values (dropna (rows_of h df)))"
proof -
  have key: "\<And>h' b. b \<in> set (color_one df h') \<Longrightarrow> cb_hospital b = h'"
    by (auto simp: color_one_def dest: color_scan_hospital)
  have "filter (\<lambda>b. cb_hospital b = h) (find_color_boundaries df) =
      (if h \<in> set (unique (map hospital df)) then color_one df h else [])"
    unfolding find_color_boundaries_def
    by (rule filter_concat_map_key [OF distinct_unique key])
  also have "\<dots> = color_one df h"
    by (simp add: set_unique color_one_def rows_of_absent dropna_def sort_values_def del: set_map)
  finally show ?thesis by (simp add: color_one_def)
qed

text \<open>
  C3. For every hospital (the national aggregate is not one), the rows with a numeric
  count are sorted by count ascending, and the ExactBoundary entries reported for the
  hospital are exactly the adjacent pairs of that sequence whose counts differ by exactly 1
  and whose colours differ, in order, each with proven = true and the transition type
  fromColor, arrow, toColor. For the observations (10, green), (11, amber) of hospital X
  the output is the single entry (X, green-arrow-amber, 10, 11, proven = true).
\<close>

theorem exact_boundaries_unit_steps:
  "(h \<noteq> ''National Total'' \<longrightarrow>
      sorted (map (\<lambda>r. the (total_num r)) (sort_values (dropna (rows_of h df)))) \<and>
      mset (sort_values (dropna (rows_of h df))) = mset (dropna (rows_of h df)) \<and>
      filter (\<lambda>b. eb_hospital b = h) (find_exact_boundaries df) =
        map (\<lambda>(p, q). \<lparr> eb_hospital = h, boundary_type = total_color p @ arrow @ total_color q,
                         below_threshold = the (total_num p), at_threshold = the (total_num q),
                         proven = True \<rparr>)
          (filter (\<lambda>(p, q). the (total_num q) - the (total_num p) = 1 \<and>
                             total_color q \<noteq> total_color p)
             (adjacent_pairs (sort_values (dropna (rows_of h df)))))) \<and>
   find_exact_boundaries unit_step_table =
      [\<lparr> eb_hospital = ''X'', boundary_type = ''green'' @ arrow @ ''amber'',
          below_threshold = 10, at_threshold = 11, proven = True \<rparr>]"
proof -
  have "find_exact_boundaries unit_step_table =
      [\<lparr> eb_hospital = ''X'', boundary_type = ''green'' @ arrow @ ''amber'',
          below_threshold = 10, at_threshold = 11, proven = True \<rparr>]"
    by (simp add: unit_step_table_def find_exact_boundaries_def exact_one_def unique_def
        rows_of_def dropna_def sort_values_def Let_def)
  moreover have "filter (\<lambda>b. eb_hospital b = h) (find_exact_boundaries df) =
        map (\<lambda>(p, q). \<lparr> eb_hospital = h, boundary_type = total_color p @ arrow @ total_color q,
                         below_threshold = the (total_num p), at_threshold = the (total_num q),
                         proven = True \<rparr>)
          (filter (\<lambda>(p, q). the (total_num q) - the (total_num p) = 1 \<and>
                             total_color q \<noteq> total_color p)
             (adjacent_pairs (sort_values (dropna (rows_of h df)))))"
    if nt: "h \<noteq> ''National Total''"
    by (simp only: exact_filter [OF nt] exact_scan_None)
  ultimately show ?thesis
    using sort_values_sorted [of "dropna (rows_of h df)"] sort_values_mset [of "dropna (rows_of h df)"]
    by blast
qed

theorem exact_boundaries_unit_steps_witness:
  "filter (\<lambda>b. eb_hospital b = ''X'') (find_exact_boundaries unit_step_table) =
      [\<lparr> eb_hospital = ''X'', boundary_type = ''green'' @ arrow @ ''amber'',
          below_threshold = 10, at_threshold = 11, proven = True \<rparr>]"
proof -
  have "''X'' \<noteq> ''National Total''" by simp
  with exact_boundaries_unit_steps [of "''X''" unit_step_table]
  have "filter (\<lambda>b. eb_hospital b = ''X'') (find_exact_boundaries unit_step_table) =
        map (\<lambda>(p, q). \<lparr> eb_hospital = ''X'', boundary_type = total_color p @ arrow @ total_color q,
                         below_threshold = the (total_num p), at_threshold = the (total_num q),
                         proven = True \<rparr>)
          (filter (\<lambda>(p, q). the (total_num q) - the (total_num p) = 1 \<and>
                             total_color q \<noteq> total_color p)
             (adjacent_pairs (sort_values (dropna (rows_of ''X'' unit_step_table)))))"
    by blast
  then show ?thesis
    by (simp add: unit_step_table_def rows_of_def dropna_def sort_values_def adjacent_pairs_def)
qed

text \<open>
  C10. The boundary finder used while scraping reports, for every hospital name, exactly
  one entry for every adjacent pair of the count-ascending sequence of its rows with a
  numeric count whose colours differ, in order, whatever the difference of the counts;
  the entry records the difference. On a table where the colour changes at a difference
  of 0 and at a difference of 5 it reports both, and the exact-boundary analysis reports
  none.
\<close>

theorem color_boundaries_every_change:
  "sorted (map (\<lambda>r. the (total_num r)) (sort_values (dropna (rows_of h df)))) \<and>
   mset (sort_values (dropna (rows_of h df))) = mset (dropna (rows_of h df)) \<and>
   filter (\<lambda>b. cb_hospital b = h) (find_color_boundaries df) =
     map (\<lambda>(p, q). \<lparr> cb_hospital = h, from_value = the (total_num p), from_color = total_color p,
                      to_value = the (total_num q), to_color = total_color q,
                      difference = the (total_num q) - the (total_num p),
                      from_date = date p, to_date = date q \<rparr>)
       (filter (\<lambda>(p, q). total_color p \<noteq> total_color q)
          (adjacent_pairs (sort_values (dropna (rows_of h df))))) \<and>
   find_color_boundaries wide_step_table =
     [\<lparr> cb_hospital = ''X'', from_value = 10, from_color = ''green'', to_value = 10,
         to_color = ''amber'', difference = 0,
         from_date = ''02/01/2026'', to_date = ''03/01/2026'' \<rparr>,
      \<lparr> cb_hospital = ''X'', from_value = 10, from_color = ''amber'', to_value = 15,
         to_color = ''red'', difference = 5,
         from_date = ''03/01/2026'', to_date = ''01/01/2026'' \<rparr>] \<and>
   find_exact_boundaries wide_step_table = []"
proof -
  have 1: "find_color_boundaries wide_step_table =
     [\<lparr> cb_hospital = ''X'', from_value = 10, from_color = ''green'', to_value = 10,
         to_color = ''amber'', difference = 0,
         from_date = ''02/01/2026'', to_date = ''03/01/2026'' \<rparr>,
      \<lparr> cb_hospital = ''X'', from_value = 10, from_color = ''amber'', to_value = 15,
         to_color = ''red'', difference = 5,
         from_date = ''03/01/2026'', to_date = ''01/01/2026'' \<rparr>]"
    by (simp add: wide_step_table_def find_color_boundaries_def color_one_def unique_def
        rows_of_def dropna_def sort_values_def Let_def)
  have 2: "find_exact_boundaries wide_step_table = []"
    by (simp add: wide_step_table_def find_exact_boundaries_def exact_one_def unique_def
        rows_of_def dropna_def sort_values_def Let_def)
  from 1 2 show ?thesis
    by (simp only: color_filter color_scan_None sort_values_sorted sort_values_mset simp_thms)
qed

section \<open>Appending with duplicate elimination\<close>












section \<open>Strings and the colour classifier\<close>

lemma startswith_iff: "startswith s p \<longleftrightarrow> (\<exists>r. s = p @ r)"
  by (induction s p rule: startswith.induct) auto

lemma endswith_iff: "endswith s p \<longleftrightarrow> (\<exists>r. s = r @ p)"
proof -
  have "endswith s p \<longleftrightarrow> (\<exists>r. rev s = rev p @ r)" by (simp add: endswith_def startswith_iff)
  also have "\<dots> \<longleftrightarrow> (\<exists>r. s = r @ p)"
  proof
    assume "\<exists>r. rev s = rev p @ r"
    then obtain r where "rev s = rev p @ r" ..
    then have "s = rev r @ p" by (metis rev_append rev_rev_ident)
    then show "\<exists>r. s = r @ p" ..
  next
    assume "\<exists>r. s = r @ p"
    then obtain r where "s = r @ p" ..
    then have "rev s = rev p @ rev r" by simp
    then show "\<exists>r. rev s = rev p @ r" ..
  qed
  finally show ?thesis .
qed

lemma contains_iff: "contains s sub \<longleftrightarrow> (\<exists>a b. s = a @ sub @ b)"
proof (induction s)
  case Nil
  then show ?case by auto
next
  case (Cons c cs)
  show ?case
  proof
    assume "contains (c # cs) sub"
    then consider "startswith (c # cs) sub" | "contains cs sub" by auto
    then show "\<exists>a b. c # cs = a @ sub @ b"
    proof cases
      case 1
      then obtain r where "c # cs = sub @ r" by (auto simp: startswith_iff)
      then have "c # cs = [] @ sub @ r" by simp
      then show ?thesis by blast
    next
      case 2
      then obtain a b where "cs = a @ sub @ b" using Cons.IH by auto
      then have "c # cs = (c # a) @ sub @ b" by simp
      then show ?thesis by blast
    qed
  next
    assume "\<exists>a b. c # cs = a @ sub @ b"
    then obtain a b where ab: "c # cs = a @ sub @ b" by auto
    show "contains (c # cs) sub"
    proof (cases a)
      case Nil
      with ab have "startswith (c # cs) sub" by (auto simp: startswith_iff)
      then show ?thesis by simp
    next
      case (Cons x a')
      with ab have "cs = a' @ sub @ b" by simp
      then have "contains cs sub" using Cons.IH by auto
      then show ?thesis by simp
    qed
  qed
qed

lemma color_loop_none: "\<forall>cls \<in> set cs. no_keyword cls \<Longrightarrow> color_loop cs = ''none''"
  by (induction cs) (auto simp: class_color_def no_keyword_def)

lemma color_loop_skip: "\<forall>p \<in> set pre. no_keyword p \<Longrightarrow> color_loop (pre @ rest) = color_loop rest"
  by (induction pre) (auto simp: class_color_def no_keyword_def)

lemma color_loop_range: "color_loop cs \<in> {''green'', ''red'', ''amber'', ''none''}"
  by (induction cs) (auto simp: class_color_def)

lemma color_loop_first:
  "\<forall>p \<in> set pre. no_keyword p \<Longrightarrow> \<not> no_keyword cls \<Longrightarrow>
   color_loop (pre @ cls # post) =
     (if in_lower ''green'' cls then ''green'' else if in_lower ''red'' cls then ''red'' else ''amber'')"
  by (auto simp: color_loop_skip class_color_def no_keyword_def)

lemma in_lower_iff: "in_lower kw cls \<longleftrightarrow> (\<exists>a b. lower cls = a @ kw @ b)"
  by (simp add: in_lower_def contains_iff)

text \<open>
  C4 (as the code has it). The classifier is a total function into green, red, amber, none.
  It walks the classes in order and answers at the first class that contains one of the
  colour words (compared in lower case): green if that class contains "green", otherwise
  red if it contains "red", otherwise amber (it then contains "orange", "amber" or
  "yellow"); it answers none when no class contains a colour word. The precedence green,
  red, amber holds within one class only; across classes the earlier class decides.
\<close>

theorem extract_color_first_match:
  "extract_color c \<in> {''green'', ''red'', ''amber'', ''none''} \<and>
   ((\<forall>cls \<in> set (classes_of (cell_class c)). no_keyword cls) \<longrightarrow> extract_color c = ''none'') \<and>
   (\<forall>pre cls post.
      classes_of (cell_class c) = pre @ cls # post \<and> (\<forall>p \<in> set pre. no_keyword p) \<and>
      \<not> no_keyword cls \<longrightarrow>
      extract_color c =
        (if in_lower ''green'' cls then ''green''
         else if in_lower ''red'' cls then ''red'' else ''amber''))"
proof -
  have 1: "extract_color c \<in> {''green'', ''red'', ''amber'', ''none''}"
    unfolding extract_color_def by (rule color_loop_range)
  have 2: "(\<forall>cls \<in> set (classes_of (cell_class c)). no_keyword cls) \<longrightarrow> extract_color c = ''none''"
    unfolding extract_color_def using color_loop_none by blast
  have 3: "extract_color c =
        (if in_lower ''green'' cls then ''green''
         else if in_lower ''red'' cls then ''red'' else ''amber'')"
    if "classes_of (cell_class c) = pre @ cls # post" and "\<forall>p \<in> set pre. no_keyword p"
      and "\<not> no_keyword cls" for pre cls post
    unfolding extract_color_def that(1) using that(2,3) by (rule color_loop_first)
  from 1 2 3 show ?thesis by blast
qed

theorem extract_color_first_match_witness:
  "extract_color \<lparr>cell_text = ''12'', colspan = 1,
      cell_class = ClassList [''bold'', ''Text-Green'', ''cell-red''], width = Some ''50''\<rparr> = ''green'' \<and>
   extract_color \<lparr>cell_text = ''12'', colspan = 1,
      cell_class = ClassList [''foo''], width = Some ''50''\<rparr> = ''none''"
proof -
  let ?c = "\<lparr>cell_text = ''12'', colspan = 1,
      cell_class = ClassList [''bold'', ''Text-Green'', ''cell-red''], width = Some ''50''\<rparr>"
  let ?d = "\<lparr>cell_text = ''12'', colspan = 1,
      cell_class = ClassList [''foo''], width = Some ''50''\<rparr>"
  have a: "classes_of (cell_class ?c) = [''bold''] @ ''Text-Green'' # [''cell-red'']" by simp
  have b: "\<forall>p \<in> set [''bold'']. no_keyword p" by code_simp
  have c: "\<not> no_keyword ''Text-Green''" by code_simp
  have d: "in_lower ''green'' ''Text-Green''" by code_simp
  have e: "\<forall>cls \<in> set (classes_of (cell_class ?d)). no_keyword cls" by code_simp
  from extract_color_first_match [of ?c] a b c
  have "extract_color ?c =
        (if in_lower ''green'' ''Text-Green'' then ''green''
         else if in_lower ''red'' ''Text-Green'' then ''red'' else ''amber'')"
    by blast
  with d have "extract_color ?c = ''green''" by simp
  moreover from extract_color_first_match [of ?d] e have "extract_color ?d = ''none''" by blast
  ultimately show ?thesis by blast
qed

text \<open>
  A cell whose classes are "cell-red" then "cell-green" has a class that contains "green",
  and is classified red; with the two classes swapped it is classified green.
\<close>

theorem extract_color_order_counterexample:
  "(\<exists>cls \<in> set [''cell-red'', ''cell-green'']. in_lower ''green'' cls) \<and>
   extract_color \<lparr>cell_text = ''12'', colspan = 1,
      cell_class = ClassList [''cell-red'', ''cell-green''], width = Some ''50''\<rparr> = ''red'' \<and>
   extract_color \<lparr>cell_text = ''12'', colspan = 1,
      cell_class = ClassList [''cell-green'', ''cell-red''], width = Some ''50''\<rparr> = ''green''"
  by (simp add: extract_color_def class_color_def in_lower_def lower_def lower_char_def)

section \<open>The master row of the daily scraper\<close>

lemma hospital_count_append: "hospital_count (xs @ ys) = hospital_count xs + hospital_count ys"
  by (simp add: hospital_count_def)

lemma hospital_count_replicate:
  "hospital_count (concat (replicate n xs)) = n * hospital_count xs"
  by (induction n) (simp_all add: hospital_count_append, simp add: hospital_count_def)

lemma hospital_count_entity: "hospital_count (entity_cells nm) = 1"
  by (simp add: hospital_count_def entity_cells_def name_cell_def value_cell_def)

lemma find_data_row_None: "find_data_row rs = None \<longleftrightarrow> (\<forall>r \<in> set rs. hospital_count r < 50)"
  by (induction rs) auto

lemma find_data_row_first:
  "i < length rs \<Longrightarrow> 50 \<le> hospital_count (rs ! i) \<Longrightarrow> \<forall>j<i. hospital_count (rs ! j) < 50 \<Longrightarrow>
   find_data_row rs = Some (rs ! i)"
proof (induction rs arbitrary: i)
  case Nil
  then show ?case by simp
next
  case (Cons r rs)
  show ?case
  proof (cases i)
    case 0
    with Cons.prems show ?thesis by simp
  next
    case (Suc k)
    with Cons.prems have "hospital_count ((r # rs) ! 0) < 50" by blast
    then have small: "\<not> 50 \<le> hospital_count r" by simp
    have "find_data_row rs = Some (rs ! k)"
    proof (rule Cons.IH)
      show "k < length rs" using Cons.prems(1) Suc by simp
      show "50 \<le> hospital_count (rs ! k)" using Cons.prems(2) Suc by simp
      show "\<forall>j<k. hospital_count (rs ! j) < 50"
      proof (intro allI impI)
        fix j assume "j < k"
        then have "Suc j < i" using Suc by simp
        with Cons.prems(3) have "hospital_count ((r # rs) ! Suc j) < 50" by blast
        then show "hospital_count (rs ! j) < 50" by simp
      qed
    qed
    with small Suc show ?thesis by simp
  qed
qed

lemma with_metadata_sel [simp]:
  "Hospital (with_metadata now d e) = Hospital e"
  "report_date (with_metadata now d e) = d"
  "scrape_date (with_metadata now d e) = now"
  by (simp_all add: with_metadata_def trolley_entry.extend_def trolley_record.fields_def)

lemma scrape_none_qualifies:
  assumes "\<forall>j. 2 \<le> j \<and> j < length rows \<longrightarrow> hospital_count (rows ! j) < 50"
  shows "scrape_hse_trolleygar d now (Some rows) = Inl NoMasterRowFound"
proof -
  have "\<forall>r \<in> set (drop 2 rows). hospital_count r < 50"
  proof
    fix r assume "r \<in> set (drop 2 rows)"
    then obtain k where k: "k < length (drop 2 rows)" "drop 2 rows ! k = r"
      by (auto simp: in_set_conv_nth)
    then have "r = rows ! (2 + k)" and "2 + k < length rows" by auto
    with assms show "hospital_count r < 50" by auto
  qed
  then have "find_data_row (drop 2 rows) = None" by (simp add: find_data_row_None)
  then show ?thesis by (simp add: scrape_hse_trolleygar_def)
qed

lemma scrape_first_qualifying:
  assumes "2 \<le> i" "i < length rows" "50 \<le> hospital_count (rows ! i)"
    and "\<forall>j. 2 \<le> j \<and> j < i \<longrightarrow> hospital_count (rows ! j) < 50"
  shows "scrape_hse_trolleygar d now (Some rows) =
           Inr (map (with_metadata now d) (parse_cells (rows ! i)))"
proof -
  have nth: "\<And>k. k < length (drop 2 rows) \<Longrightarrow> drop 2 rows ! k = rows ! (2 + k)" by simp
  have 1: "i - 2 < length (drop 2 rows)" using assms(1,2) by simp
  have eq: "2 + (i - 2) = i" using assms(1) by simp
  have "drop 2 rows ! (i - 2) = rows ! (2 + (i - 2))"
    by (rule nth_drop) (use assms(1,2) in simp)
  then have 2: "drop 2 rows ! (i - 2) = rows ! i" by (simp only: eq)
  have 3: "\<forall>j<i - 2. hospital_count (drop 2 rows ! j) < 50"
  proof (intro allI impI)
    fix j assume j: "j < i - 2"
    then have "2 \<le> 2 + j \<and> 2 + j < i" by simp
    with assms(4) have "hospital_count (rows ! (2 + j)) < 50" by blast
    moreover have "j < length (drop 2 rows)" using j 1 by simp
    ultimately show "hospital_count (drop 2 rows ! j) < 50" by (simp add: nth)
  qed
  have "find_data_row (drop 2 rows) = Some (drop 2 rows ! (i - 2))"
    by (rule find_data_row_first [OF 1 _ 3]) (simp only: 2 assms(3))
  then show ?thesis by (simp add: scrape_hse_trolleygar_def 2)
qed

lemma hospital_count_master_row: "hospital_count master_row = 62"
  by (simp add: master_row_def hospital_count_replicate hospital_count_entity)

lemma hospital_count_noise_row: "hospital_count noise_row = 3"
  by (simp add: noise_row_def hospital_count_replicate hospital_count_entity)

lemma hospital_count_header_row: "hospital_count header_row = 1"
  by (simp add: header_row_def hospital_count_def name_cell_def value_cell_def)

text \<open>
  C6 (as the code has it). In daily mode the extractor always skips the first two rows of
  the table and selects the first later row in which at least 50 cells have colspan at
  least 8; it decodes that row only. If no row from the third on qualifies, it fails with
  NoMasterRowFound. So on a table of two header rows, a row with 62 such cells and any
  further rows, the wide row is decoded; on a table with one header row, the wide row and
  then rows with fewer than 50 such cells, the wide row is skipped as a header and the
  result is NoMasterRowFound.
\<close>

theorem master_row_selection:
  "((\<forall>j. 2 \<le> j \<and> j < length rows \<longrightarrow> hospital_count (rows ! j) < 50) \<longrightarrow>
      scrape_hse_trolleygar d now (Some rows) = Inl NoMasterRowFound) \<and>
   (2 \<le> i \<and> i < length rows \<and> 50 \<le> hospital_count (rows ! i) \<and>
    (\<forall>j. 2 \<le> j \<and> j < i \<longrightarrow> hospital_count (rows ! j) < 50) \<longrightarrow>
      scrape_hse_trolleygar d now (Some rows) =
        Inr (map (with_metadata now d) (parse_cells (rows ! i)))) \<and>
   (hospital_count m = 62 \<and> (\<forall>n \<in> set noise. hospital_count n < 50) \<longrightarrow>
      scrape_hse_trolleygar d now (Some ([h1, h2, m] @ noise)) =
        Inr (map (with_metadata now d) (parse_cells m)) \<and>
      scrape_hse_trolleygar d now (Some ([h1, m] @ noise)) = Inl NoMasterRowFound)"
proof -
  have c: "scrape_hse_trolleygar d now (Some ([h1, h2, m] @ noise)) =
        Inr (map (with_metadata now d) (parse_cells m))" if "hospital_count m = 62"
    using that by (simp add: scrape_hse_trolleygar_def)
  have e: "scrape_hse_trolleygar d now (Some ([h1, m] @ noise)) = Inl NoMasterRowFound"
    if "\<forall>n \<in> set noise. hospital_count n < 50"
  proof -
    from that have "find_data_row noise = None" by (simp add: find_data_row_None)
    then show ?thesis by (simp add: scrape_hse_trolleygar_def)
  qed
  from c e scrape_none_qualifies [of rows d now] scrape_first_qualifying [of i rows d now]
  show ?thesis by blast
qed

theorem master_row_selection_witness:
  "scrape_hse_trolleygar ''01/01/2026'' ''2026-01-01 09:00:00'' (Some two_header_table) =
     Inr (map (with_metadata ''2026-01-01 09:00:00'' ''01/01/2026'') (parse_cells master_row)) \<and>
   scrape_hse_trolleygar ''01/01/2026'' ''2026-01-01 09:00:00'' (Some [header_row, header_row, noise_row]) = Inl NoMasterRowFound"
proof -
  have a: "hospital_count master_row = 62 \<and> (\<forall>n \<in> set [noise_row, noise_row]. hospital_count n < 50)"
    by (simp add: hospital_count_master_row hospital_count_noise_row)
  have b: "\<forall>j. 2 \<le> j \<and> j < length [header_row, header_row, noise_row] \<longrightarrow>
     hospital_count ([header_row, header_row, noise_row] ! j) < 50"
    by (auto simp: hospital_count_noise_row less_Suc_eq numeral_3_eq_3)
  from master_row_selection [where m = master_row and noise = "[noise_row, noise_row]"
      and ?h1.0 = header_row and ?h2.0 = header_row and d = "''01/01/2026''"
      and now = "''2026-01-01 09:00:00''" and rows = "[header_row, header_row, noise_row]"] a b
  show ?thesis by (simp add: two_header_table_def)
qed


text \<open>
  The scenario of the claim: one header row, a row with 62 entity cells, two short rows.
\<close>

theorem master_row_one_header_counterexample: "hospital_count (one_header_table ! 1) = 62 \<and>
   hospital_count (one_header_table ! 0) < 50 \<and> hospital_count (one_header_table ! 2) < 50 \<and>
   hospital_count (one_header_table ! 3) < 50 \<and> length one_header_table = 4 \<and>
   scrape_hse_trolleygar ''01/01/2026'' ''2026-01-01 09:00:00'' (Some one_header_table) = Inl NoMasterRowFound"
  by (simp add: one_header_table_def scrape_hse_trolleygar_def hospital_count_master_row hospital_count_noise_row hospital_count_header_row)


section \<open>Decoding entities\<close>

lemma set_skip_separator: "set (skip_separator cells) \<subseteq> set cells"
  by (auto simp: skip_separator_def split: list.splits if_splits)

lemma entity_entries_name: "e \<in> set (entity_entries nm cells) \<Longrightarrow> Hospital e = nm"
  by (auto simp: entity_entries_def Let_def split: if_splits)

lemma parse_cells_names:
  "e \<in> set (parse_cells cells) \<Longrightarrow>
     \<not> is_regional_header (Hospital e) \<and> (\<exists>c \<in> set cells. 8 \<le> colspan c \<and> cell_text c = Hospital e)"
proof (induction cells arbitrary: e rule: parse_cells.induct)
  case 1
  then show ?case by simp
next
  case (2 c cells)
  show ?case
  proof (cases "8 \<le> colspan c")
    case False
    with 2 show ?thesis by auto
  next
    case big: True
    show ?thesis
    proof (cases "is_regional_header (cell_text c)")
      case True
      with big "2.prems" have "e \<in> set (parse_cells (skip_separator cells))" by simp
      with "2.IH"(1) [OF big True] have
        "\<not> is_regional_header (Hospital e) \<and> (\<exists>c \<in> set (skip_separator cells). 8 \<le> colspan c \<and> cell_text c = Hospital e)"
        by blast
      then show ?thesis using set_skip_separator [of cells] by auto
    next
      case False
      with big "2.prems" consider "e \<in> set (entity_entries (cell_text c) (skip_separator cells))"
        | "e \<in> set (parse_cells (drop 11 (skip_separator cells)))" by auto
      then show ?thesis
      proof cases
        case 1
        then have "Hospital e = cell_text c" by (rule entity_entries_name)
        with False big show ?thesis by auto
      next
        case 2
        with "2.IH"(2) [OF big False] have
          "\<not> is_regional_header (Hospital e) \<and>
           (\<exists>c \<in> set (drop 11 (skip_separator cells)). 8 \<le> colspan c \<and> cell_text c = Hospital e)"
          by blast
        then show ?thesis
          using set_skip_separator [of cells] set_drop_subset [of 11 "skip_separator cells"] by auto
      qed
    qed
  qed
qed

lemma entity_records_name: "r \<in> set (entity_records d nm cells) \<Longrightarrow> sv_hospital r = nm"
  by (auto simp: entity_records_def make_survey_record_def split: if_splits)

lemma scan_cells_names:
  "r \<in> set (scan_cells d cells) \<Longrightarrow>
     \<not> is_regional_header_v2 (sv_hospital r) \<and>
     (\<exists>c \<in> set cells. 8 \<le> colspan c \<and> cell_text c \<noteq> [] \<and> cell_text c = sv_hospital r)"
proof (induction d cells arbitrary: r rule: scan_cells.induct)
  case (1 d)
  then show ?case by simp
next
  case (2 d c cells)
  show ?case
  proof (cases "8 \<le> colspan c \<and> cell_text c \<noteq> []")
    case False
    with 2 show ?thesis by auto
  next
    case big: True
    show ?thesis
    proof (cases "is_regional_header_v2 (cell_text c)")
      case True
      with big "2.prems" have "r \<in> set (scan_cells d cells)" by simp
      with "2.IH"(1) [OF big True] show ?thesis by auto
    next
      case False
      with big "2.prems" consider "r \<in> set (entity_records d (cell_text c) (skip_separator cells))"
        | "r \<in> set (scan_cells d (drop 12 (skip_separator cells)))" by auto
      then show ?thesis
      proof cases
        case 1
        then have "sv_hospital r = cell_text c" by (rule entity_records_name)
        with False big show ?thesis by auto
      next
        case 2
        with "2.IH"(2) [OF big False] have
          "\<not> is_regional_header_v2 (sv_hospital r) \<and>
           (\<exists>c \<in> set (drop 12 (skip_separator cells)).
              8 \<le> colspan c \<and> cell_text c \<noteq> [] \<and> cell_text c = sv_hospital r)"
          by blast
        then show ?thesis
          using set_skip_separator [of cells] set_drop_subset [of 12 "skip_separator cells"] by auto
      qed
    qed
  qed
qed


lemma parse_cells_header:
  "8 \<le> colspan c \<Longrightarrow> is_regional_header (cell_text c) \<Longrightarrow>
   parse_cells (c # cells) = parse_cells (skip_separator cells)"
  by simp

lemma parse_cells_entity:
  assumes "8 \<le> colspan c" "cell_text c \<noteq> []" "\<not> is_regional_header (cell_text c)"
    and "11 \<le> length (skip_separator cells)"
  shows "\<exists>e. Hospital e = cell_text c \<and>
           parse_cells (c # cells) = e # parse_cells (drop 11 (skip_separator cells))"
proof -
  have "length (collect_values (skip_separator cells)) = 11"
    using assms(4) by (simp add: collect_values_def)
  then obtain e where "entity_entries (cell_text c) (skip_separator cells) = [e]"
    and "Hospital e = cell_text c"
    using assms(2) by (simp add: entity_entries_def Let_def)
  then show ?thesis using assms(1,3) by simp
qed

lemma scan_cells_header:
  "8 \<le> colspan c \<Longrightarrow> cell_text c \<noteq> [] \<Longrightarrow> is_regional_header_v2 (cell_text c) \<Longrightarrow>
   scan_cells d (c # cells) = scan_cells d cells"
  by simp

lemma scan_cells_entity:
  assumes "8 \<le> colspan c" "cell_text c \<noteq> []" "\<not> is_regional_header_v2 (cell_text c)"
    and "11 \<le> length (skip_separator cells)"
  shows "scan_cells d (c # cells) =
           make_survey_record d (cell_text c) (collect_stats (skip_separator cells))
           # scan_cells d (drop 12 (skip_separator cells))"
proof -
  have "11 \<le> length (collect_stats (skip_separator cells))"
    using assms(4) by (simp add: collect_stats_def)
  then show ?thesis using assms(1-3) by (simp add: entity_records_def)
qed

lemma scan_cells_short:
  assumes "8 \<le> colspan c" "cell_text c \<noteq> []" "\<not> is_regional_header_v2 (cell_text c)"
    and "length (skip_separator cells) < 11"
  shows "scan_cells d (c # cells) = []"
proof -
  have "\<not> 11 \<le> length (collect_stats (skip_separator cells))"
    using assms(4) by (simp add: collect_stats_def)
  moreover have "drop 12 (skip_separator cells) = []" using assms(4) by simp
  ultimately show ?thesis using assms(1-3) by (simp add: entity_records_def)
qed

lemma row_records_few_values:
  "length (nonempty_values (data_cells_of cells)) < 3 \<Longrightarrow> row_records d cells = []"
  by (simp add: row_records_def Let_def)

text \<open>
  C5 (as the code has it). The daily decoder never emits a record whose name starts with
  "HSE " and ends with neither "Total" nor "Hospital": a cell with colspan at least 8 and
  such a text is skipped, with the empty cell after it if there is one, and a cell with
  colspan at least 8 and any other non-empty text is decoded as an entity (a record is
  emitted when 11 cells follow). The survey decoder tests for "Total" anywhere in the
  text: it never emits a record whose name starts with "HSE ", does not contain "Total"
  and does not end with "Hospital"; such a cell is skipped, and every other cell with
  colspan at least 8 and non-empty text is decoded as an entity.
\<close>

theorem regional_headers_skipped:
  "(\<forall>recs. scrape_hse_trolleygar d now table = Inr recs \<longrightarrow>
      (\<forall>r \<in> set recs. \<not> (startswith (Hospital r) ''HSE '' \<and> \<not> endswith (Hospital r) ''Total'' \<and>
                           \<not> endswith (Hospital r) ''Hospital''))) \<and>
   (8 \<le> colspan c \<and> startswith (cell_text c) ''HSE '' \<and> \<not> endswith (cell_text c) ''Total'' \<and>
    \<not> endswith (cell_text c) ''Hospital'' \<longrightarrow>
      parse_cells (c # cells) = parse_cells (skip_separator cells)) \<and>
   (8 \<le> colspan c \<and> cell_text c \<noteq> [] \<and>
    \<not> (startswith (cell_text c) ''HSE '' \<and> \<not> endswith (cell_text c) ''Total'' \<and>
       \<not> endswith (cell_text c) ''Hospital'') \<and>
    11 \<le> length (skip_separator cells) \<longrightarrow>
      (\<exists>e. Hospital e = cell_text c \<and>
           parse_cells (c # cells) = e # parse_cells (drop 11 (skip_separator cells)))) \<and>
   (\<forall>recs. scrape_with_colors_v2 d (Some all_cells) = Some recs \<longrightarrow>
      (\<forall>r \<in> set recs. \<not> (startswith (sv_hospital r) ''HSE '' \<and> \<not> contains (sv_hospital r) ''Total'' \<and>
                           \<not> endswith (sv_hospital r) ''Hospital''))) \<and>
   (8 \<le> colspan c \<and> cell_text c \<noteq> [] \<and> startswith (cell_text c) ''HSE '' \<and>
    \<not> contains (cell_text c) ''Total'' \<and> \<not> endswith (cell_text c) ''Hospital'' \<longrightarrow>
      scan_cells d (c # cells) = scan_cells d cells) \<and>
   (8 \<le> colspan c \<and> cell_text c \<noteq> [] \<and>
    \<not> (startswith (cell_text c) ''HSE '' \<and> \<not> contains (cell_text c) ''Total'' \<and>
       \<not> endswith (cell_text c) ''Hospital'') \<and>
    11 \<le> length (skip_separator cells) \<longrightarrow>
      (\<exists>r. sv_hospital r = cell_text c \<and>
           scan_cells d (c # cells) = r # scan_cells d (drop 12 (skip_separator cells))))"
proof -
  have 1: "\<forall>r \<in> set recs. \<not> is_regional_header (Hospital r)"
    if "scrape_hse_trolleygar d now table = Inr recs" for recs
  proof
    fix r assume r: "r \<in> set recs"
    from that obtain row where "recs = map (with_metadata now d) (parse_cells row)"
      by (auto simp: scrape_hse_trolleygar_def split: option.splits)
    with r obtain e where "e \<in> set (parse_cells row)" and "r = with_metadata now d e" by auto
    then show "\<not> is_regional_header (Hospital r)" using parse_cells_names [of e row] by simp
  qed
  have 4: "\<forall>r \<in> set recs. \<not> is_regional_header_v2 (sv_hospital r)"
    if "scrape_with_colors_v2 d (Some all_cells) = Some recs" for recs
  proof
    fix r assume r: "r \<in> set recs"
    from that have "recs = scan_cells d all_cells"
      by (auto simp: scrape_with_colors_v2_def Let_def split: if_splits)
    with r show "\<not> is_regional_header_v2 (sv_hospital r)" using scan_cells_names by blast
  qed
  have 6: "\<exists>r. sv_hospital r = cell_text c \<and>
           scan_cells d (c # cells) = r # scan_cells d (drop 12 (skip_separator cells))"
    if "8 \<le> colspan c" "cell_text c \<noteq> []" "\<not> is_regional_header_v2 (cell_text c)"
      "11 \<le> length (skip_separator cells)"
    using scan_cells_entity [OF that] by (simp add: make_survey_record_def)
  show ?thesis
    using 1 4 6 parse_cells_header [of c cells] parse_cells_entity [of c cells]
      scan_cells_header [of c d cells]
    unfolding is_regional_header_def is_regional_header_v2_def by blast
qed

theorem regional_headers_skipped_witness:
  "parse_cells (name_cell ''HSE West and North West'' # entity_cells ''Mercy Hospital'') =
     parse_cells (skip_separator (entity_cells ''Mercy Hospital'')) \<and>
   scan_cells ''01/01/2026'' (name_cell ''HSE West and North West'' # entity_cells ''Mercy Hospital'') =
     scan_cells ''01/01/2026'' (entity_cells ''Mercy Hospital'') \<and>
   map Hospital (parse_cells (name_cell ''HSE West and North West'' # entity_cells ''Mercy Hospital''))
     = [''Mercy Hospital''] \<and>
   map sv_hospital (scan_cells ''01/01/2026''
       (name_cell ''HSE West and North West'' # entity_cells ''Mercy Hospital''))
     = [''Mercy Hospital'']"
proof -
  let ?c = "name_cell ''HSE West and North West''"
  have a: "8 \<le> colspan ?c" "cell_text ?c \<noteq> []" "startswith (cell_text ?c) ''HSE ''"
    "\<not> endswith (cell_text ?c) ''Total''" "\<not> endswith (cell_text ?c) ''Hospital''"
    "\<not> contains (cell_text ?c) ''Total''"
    by (simp_all add: name_cell_def endswith_def)
  from regional_headers_skipped [where c = ?c and cells = "entity_cells ''Mercy Hospital''"
      and d = "''01/01/2026''"] a
  have b: "parse_cells (?c # entity_cells ''Mercy Hospital'') =
       parse_cells (skip_separator (entity_cells ''Mercy Hospital''))"
    and c: "scan_cells ''01/01/2026'' (?c # entity_cells ''Mercy Hospital'') =
       scan_cells ''01/01/2026'' (entity_cells ''Mercy Hospital'')"
    by blast+
  have d: "map Hospital (parse_cells (skip_separator (entity_cells ''Mercy Hospital''))) = [''Mercy Hospital'']"
    by (simp add: entity_cells_def name_cell_def value_cell_def skip_separator_def
        is_regional_header_def endswith_def entity_entries_def collect_values_def Let_def)
  have e: "map sv_hospital (scan_cells ''01/01/2026'' (entity_cells ''Mercy Hospital'')) = [''Mercy Hospital'']"
    by (simp add: entity_cells_def name_cell_def value_cell_def skip_separator_def
        is_regional_header_v2_def endswith_def entity_records_def collect_stats_def
        make_survey_record_def)
  from b c d e show ?thesis by simp
qed

text \<open>
  A cell with colspan 9 and the text "HSE Total Care Unit", followed by 12 cells: the text
  starts with "HSE " and ends with neither "Total" nor "Hospital", and the survey decoder
  emits a record under that name.
\<close>

theorem regional_header_total_inside_counterexample:
  "8 \<le> colspan (hd total_inside_cells) \<and>
   startswith (cell_text (hd total_inside_cells)) ''HSE '' \<and>
   \<not> endswith (cell_text (hd total_inside_cells)) ''Total'' \<and>
   \<not> endswith (cell_text (hd total_inside_cells)) ''Hospital'' \<and>
   map sv_hospital (the (scrape_with_colors_v2 ''01/01/2026'' (Some total_inside_cells))) =
     [cell_text (hd total_inside_cells)]"
  by (simp add: total_inside_cells_def name_cell_def value_cell_def scrape_with_colors_v2_def
      skip_separator_def is_regional_header_v2_def endswith_def entity_records_def
      collect_stats_def make_survey_record_def Let_def numeral_eq_Suc)

text \<open>
  C8 (as the code has it). In the row-by-row survey scraper an entity with fewer than 3
  non-empty values among its data cells emits no record, and the other rows of the table
  are processed as if the row were not there. In the scanning survey scraper the test is
  on the number of cells collected, not on their content: an entity followed by fewer than
  11 cells (after one optional empty cell) emits no record and ends the scan, and an entity
  followed by at least 11 cells emits a record whatever the cells hold, the scan going on
  after the cells collected.
\<close>

theorem short_entities_dropped:
  "(length (nonempty_values (data_cells_of cells)) < 3 \<longrightarrow>
      row_records d cells = [] \<and>
      scrape_with_colors d (Some (rows1 @ [cells] @ rows2)) =
        scrape_with_colors d (Some (rows1 @ rows2))) \<and>
   (8 \<le> colspan c \<and> cell_text c \<noteq> [] \<and> \<not> is_regional_header_v2 (cell_text c) \<and>
    length (skip_separator cells) < 11 \<longrightarrow>
      scan_cells d (c # cells) = []) \<and>
   (8 \<le> colspan c \<and> cell_text c \<noteq> [] \<and> \<not> is_regional_header_v2 (cell_text c) \<and>
    11 \<le> length (skip_separator cells) \<longrightarrow>
      scan_cells d (c # cells) =
        make_survey_record d (cell_text c) (collect_stats (skip_separator cells))
        # scan_cells d (drop 12 (skip_separator cells)))"
proof -
  have 1: "scrape_with_colors d (Some (rows1 @ [cells] @ rows2)) =
        scrape_with_colors d (Some (rows1 @ rows2))" if "row_records d cells = []"
    using that by (simp add: scrape_with_colors_def)
  show ?thesis
    using 1 row_records_few_values [of cells d] scan_cells_short [of c cells d]
      scan_cells_entity [of c cells d]
    by blast
qed

theorem short_entities_dropped_witness:
  "row_records ''01/01/2026'' two_value_row = [] \<and>
   scrape_with_colors ''01/01/2026'' (Some ([] @ [two_value_row] @ [])) = None \<and>
   scan_cells ''01/01/2026'' (name_cell ''Mercy Hospital'' # replicate 5 (value_cell ''6'')) = []"
proof -
  let ?c = "name_cell ''Mercy Hospital''"
  have a: "length (nonempty_values (data_cells_of two_value_row)) < 3"
    by (simp add: two_value_row_def data_cells_of_def nonempty_values_def name_cell_def
        value_cell_def)
  have b: "8 \<le> colspan ?c \<and> cell_text ?c \<noteq> [] \<and> \<not> is_regional_header_v2 (cell_text ?c) \<and>
      length (skip_separator (replicate 5 (value_cell ''6''))) < 11"
    by (simp add: name_cell_def value_cell_def is_regional_header_v2_def skip_separator_def
        numeral_eq_Suc)
  from short_entities_dropped [where cells = two_value_row and d = "''01/01/2026''"
      and ?rows1.0 = "[]" and ?rows2.0 = "[]"] a
  have "row_records ''01/01/2026'' two_value_row = []"
    and "scrape_with_colors ''01/01/2026'' (Some ([] @ [two_value_row] @ [])) =
        scrape_with_colors ''01/01/2026'' (Some ([] @ []))"
    by blast+
  moreover from short_entities_dropped [where c = ?c and d = "''01/01/2026''"
      and cells = "replicate 5 (value_cell ''6'')"] b
  have "scan_cells ''01/01/2026'' (?c # replicate 5 (value_cell ''6'')) = []" by blast
  ultimately show ?thesis by (simp add: scrape_with_colors_def)
qed

text \<open>
  A hospital name followed by 13 empty cells: no statistic value is non-empty, and the
  scanning survey scraper emits a record, all of whose values are null.
\<close>

theorem empty_stats_record_counterexample:
  "filter (\<lambda>x. cell_text x \<noteq> []) (tl empty_stats_cells) = [] \<and>
   scrape_with_colors_v2 ''01/01/2026'' (Some empty_stats_cells) =
     Some [\<lparr> sv_date = ''01/01/2026'', sv_hospital = ''Mercy Hospital'',
              sv_ed_trolleys = None, sv_ward_trolleys = None, sv_total_trolleys = None,
              sv_total_color = ''none'', sv_surge = None, sv_delayed = None,
              sv_delayed_color = ''none'', sv_gt_24hrs = None, sv_gt_75_24hrs = None \<rparr>]"
  by (simp add: empty_stats_cells_def name_cell_def value_cell_def scrape_with_colors_v2_def
      skip_separator_def is_regional_header_v2_def endswith_def entity_records_def
      collect_stats_def make_survey_record_def or_none_def extract_color_def Let_def
      numeral_eq_Suc)


end
